theory Spec2Isabelle
  imports Complex_Main
begin

section \<open>Characters and strings\<close>

text \<open>
  A text is a \<^typ>\<open>string\<close>; a \<^typ>\<open>char\<close> stands for the Python character whose
  code point is its value, so the model covers the texts whose code points are below 256.
  The three character classes are those of Python 3 on that range: \<open>\d\<close> and \<open>\w\<close> of
  the \<open>re\<close> module on \<open>str\<close> patterns, and the white space that \<open>str.strip()\<close>
  removes.
\<close>

definition code_point :: "char \<Rightarrow> nat" where
  "code_point c = of_char c"

definition is_digit :: "char \<Rightarrow> bool" where
  "is_digit c = (48 \<le> code_point c \<and> code_point c \<le> 57)"

definition is_word :: "char \<Rightarrow> bool" where
  "is_word c =
     (let n = code_point c in
        (48 \<le> n \<and> n \<le> 57) \<or> (65 \<le> n \<and> n \<le> 90) \<or> n = 95 \<or> (97 \<le> n \<and> n \<le> 122) \<or>
        n = 170 \<or> n = 178 \<or> n = 179 \<or> n = 181 \<or> n = 185 \<or> n = 186 \<or>
        n = 188 \<or> n = 189 \<or> n = 190 \<or>
        (192 \<le> n \<and> n \<le> 214) \<or> (216 \<le> n \<and> n \<le> 246) \<or> (248 \<le> n \<and> n \<le> 255))"

definition is_space :: "char \<Rightarrow> bool" where
  "is_space c =
     (let n = code_point c in
        (9 \<le> n \<and> n \<le> 13) \<or> (28 \<le> n \<and> n \<le> 32) \<or> n = 133 \<or> n = 160)"

text \<open>\<open>part.strip()\<close>: white space is removed at both ends.\<close>

definition strip :: "string \<Rightarrow> string" where
  "strip s = rev (dropWhile is_space (rev (dropWhile is_space s)))"

section \<open>The delimiter pattern\<close>

text \<open>
  \<open>pattern = r'(?:\bQ?\d+\.)'\<close>. A match is tried at a position of the text, given
  the character before the position (\<open>None\<close> at the start of the text) and the text from
  the position on. \<open>\b\<close> holds where exactly one of the two neighbours is a word
  character; \<open>Q?\<close> and \<open>\d+\<close> are greedy, and no backtracking of either can make
  the pattern match where the greedy choice does not, since \<open>Q\<close> and \<open>.\<close> are no
  digits. The result is the text after the match.
\<close>

definition at_word_boundary :: "char option \<Rightarrow> string \<Rightarrow> bool" where
  "at_word_boundary prev s =
     ((case prev of None \<Rightarrow> False | Some c \<Rightarrow> is_word c) \<noteq>
      (case s of [] \<Rightarrow> False | c # _ \<Rightarrow> is_word c))"

definition skip_Q :: "string \<Rightarrow> string" where
  "skip_Q s = (case s of [] \<Rightarrow> [] | c # r \<Rightarrow> if c = CHR ''Q'' then r else c # r)"

definition match_delimiter :: "char option \<Rightarrow> string \<Rightarrow> string option" where
  "match_delimiter prev s =
     (if \<not> at_word_boundary prev s then None
      else if takeWhile is_digit (skip_Q s) = [] then None
      else (case dropWhile is_digit (skip_Q s) of
              [] \<Rightarrow> None
            | c # rest \<Rightarrow> if c = CHR ''.'' then Some rest else None))"

lemma match_delimiter_shorter:
  assumes "match_delimiter prev s = Some rest"
  shows "length rest < length s"
proof -
  from assms have d: "dropWhile is_digit (skip_Q s) = CHR ''.'' # rest"
    by (auto simp: match_delimiter_def split: if_splits list.splits)
  have "length (dropWhile is_digit (skip_Q s)) \<le> length (skip_Q s)"
    by (rule length_dropWhile_le)
  moreover have "length (skip_Q s) \<le> length s"
    by (simp add: skip_Q_def split: list.splits)
  ultimately show ?thesis using d by simp
qed

text \<open>
  \<open>parts = re.split(pattern, text)\<close>: the text is scanned from left to right; at the
  leftmost position where the pattern matches, the part read so far is closed, the match
  is dropped and the scan goes on after it. The character before the next position is
  then the period that ended the match.
\<close>

function re_split_from :: "char option \<Rightarrow> string \<Rightarrow> string \<Rightarrow> string list" where
  "re_split_from prev part [] = [part]"
| "re_split_from prev part (c # cs) =
     (case match_delimiter prev (c # cs) of
        Some rest \<Rightarrow> part # re_split_from (Some CHR ''.'') [] rest
      | None \<Rightarrow> re_split_from (Some c) (part @ [c]) cs)"
  by pat_completeness auto
termination
  by (relation "measure (\<lambda>(prev, part, s). length s)")
     (auto dest: match_delimiter_shorter)

definition re_split :: "string \<Rightarrow> string list" where
  "re_split text = re_split_from None [] text"

section \<open>Splitting a text into answers\<close>

text \<open>
  The loop of \<open>split_answers\<close> over \<open>parts\<close>, with the list \<open>cleaned\<close> as its state.
\<close>

fun split_loop :: "string list \<Rightarrow> string list \<Rightarrow> string list" where
  "split_loop cleaned [] = cleaned"
| "split_loop cleaned (part # parts) =
     (let part = strip part
      in if length part > 20 then split_loop (cleaned @ [part]) parts
         else split_loop cleaned parts)"

definition split_answers :: "string \<Rightarrow> string list" where
  "split_answers text = split_loop [] (re_split text)"

section \<open>Text extraction\<close>

text \<open>
  The libraries behind \<open>extract_text\<close>, \<open>model.encode\<close> and \<open>util.cos_sim\<close> are
  not part of the program; they are the four fields of an environment. A call that can
  raise returns what it raises as a value: \<open>pdf_reader\<close> is \<open>PyPDF2.PdfReader\<close>
  with its pages (\<open>None\<close> when the reader raises; a page whose \<open>extract_text()\<close>
  raises is \<open>PageError\<close>, a page without text is \<open>PageText []\<close>), \<open>ocr\<close> is
  \<open>convert_from_bytes\<close> followed by \<open>pytesseract.image_to_string\<close> on each image.
  \<open>encode\<close> gives one vector for each string, in order, and \<open>cos_sim\<close> a number;
  both always return. A Python float is the rational number it denotes, and arithmetic on
  floats is exact arithmetic on rationals: the rounding error of a floating-point sum,
  product or quotient is left out.
\<close>

datatype page = PageText string | PageError

datatype ocr_image = OcrText string | OcrError

record ('d, 'e) env =
  pdf_reader :: "'d \<Rightarrow> page list option"
  ocr :: "'d \<Rightarrow> ocr_image list option"
  encode :: "string \<Rightarrow> 'e"
  cos_sim :: "'e \<Rightarrow> 'e \<Rightarrow> rat"

text \<open>
  The trace of a run lists the steps that reach outside the program, in the order in which
  they are entered: the direct extraction of a document (line 27), its OCR fallback
  (lines 42 to 48, after \<open>Switching to OCR...\<close> is printed), a call of
  \<open>model.encode\<close> on a list of answers (lines 94 and 117) and the call of
  \<open>util.cos_sim\<close> for a position (line 124).
\<close>

datatype 'd event =
    DirectExtraction 'd
  | OcrFallback 'd
  | Encode "string list"
  | CosSim nat

text \<open>
  The loop over \<open>reader.pages\<close>: the text read so far, and whether a page raised (the
  loop stops there, and the text read so far is kept).
\<close>

fun read_pages :: "string \<Rightarrow> page list \<Rightarrow> string \<times> bool" where
  "read_pages text [] = (text, False)"
| "read_pages text (PageText extracted # pages) =
     read_pages (if extracted \<noteq> [] then text @ extracted @ [CHR 0x0A] else text) pages"
| "read_pages text (PageError # pages) = (text, True)"

text \<open>The loop over \<open>images\<close>; an image that raises ends it.\<close>

fun read_images :: "string \<Rightarrow> ocr_image list \<Rightarrow> string" where
  "read_images text [] = text"
| "read_images text (OcrText ocr_text # images) =
     read_images (text @ ocr_text @ [CHR 0x0A]) images"
| "read_images text (OcrError # images) = text"

definition direct_extraction :: "('d, 'e) env \<Rightarrow> 'd \<Rightarrow> string \<times> bool" where
  "direct_extraction env pdf_file =
     (case pdf_reader env pdf_file of
        None \<Rightarrow> ([], True)
      | Some pages \<Rightarrow> read_pages [] pages)"

definition extract_text :: "('d, 'e) env \<Rightarrow> 'd \<Rightarrow> string \<times> 'd event list" where
  "extract_text env pdf_file =
     (let (text, raised) = direct_extraction env pdf_file
      in if \<not> raised \<and> length (strip text) > 50
         then (text, [DirectExtraction pdf_file])
         else ((case ocr env pdf_file of
                  None \<Rightarrow> text
                | Some images \<Rightarrow> read_images text images),
               [DirectExtraction pdf_file, OcrFallback pdf_file]))"

section \<open>Scoring\<close>

text \<open>
  \<open>round(x, 2)\<close> rounds to the nearest multiple of 0.01, and a value halfway between
  two of them to the one whose last digit is even.
\<close>

definition round_half_even :: "rat \<Rightarrow> int" where
  "round_half_even x =
     (let f = \<lfloor>x\<rfloor>; d = x - of_int f
      in if d < 1 / 2 then f
         else if 1 / 2 < d then f + 1
         else if even f then f else f + 1)"

definition py_round2 :: "rat \<Rightarrow> rat" where
  "py_round2 x = of_int (round_half_even (x * 100)) / 100"

record question_result =
  question_number :: nat
  similarity_percent :: rat
  status :: string

record student_result =
  pdf_name :: string
  questions :: "question_result list"
  performance_score :: rat

text \<open>
  Lines 132 and 133: a similarity below 0.20 becomes 0. The float \<open>0.20\<close> is the least
  float above one fifth, so a float is below it exactly when it is below one fifth.
\<close>

definition noise_floor :: "rat \<Rightarrow> rat" where
  "noise_floor similarity = (if similarity < 20 / 100 then 0 else similarity)"

text \<open>Lines 139 to 146.\<close>

definition status_of :: "rat \<Rightarrow> string" where
  "status_of percent_score =
     (if percent_score \<ge> 75 then ''Strong Understanding''
      else if percent_score \<ge> 45 then ''Partial Understanding''
      else if percent_score > 0 then ''Weak Understanding''
      else ''Not Related'')"

datatype error = IndexError

text \<open>
  The loop of lines 122 to 152 over the positions, with \<open>similarities\<close>, the questions of
  \<open>student_result\<close> and the trace as its state. Indexing a tensor out of its range raises.
\<close>

fun score_loop ::
  "('d, 'e) env \<Rightarrow> 'e list \<Rightarrow> 'e list \<Rightarrow> nat list \<Rightarrow>
   rat list \<times> question_result list \<times> 'd event list \<Rightarrow>
   error \<times> 'd event list + rat list \<times> question_result list \<times> 'd event list" where
  "score_loop env teacher_embeddings student_embeddings [] state = Inr state"
| "score_loop env teacher_embeddings student_embeddings (i # is) (similarities, qs, trace) =
     (if i < length teacher_embeddings \<and> i < length student_embeddings then
        let similarity = cos_sim env (teacher_embeddings ! i) (student_embeddings ! i);
            similarity = noise_floor similarity;
            percent_score = py_round2 (similarity * 100)
        in score_loop env teacher_embeddings student_embeddings is
             (similarities @ [similarity],
              qs @ [\<lparr>question_number = i + 1,
                      similarity_percent = percent_score,
                      status = status_of percent_score\<rparr>],
              trace @ [CosSim i])
      else Inl (IndexError, trace))"

text \<open>An uploaded file: its name and its byte stream.\<close>

record 'd upload =
  filename :: string
  stream :: 'd

text \<open>The body of the loop over \<open>student_pdfs\<close>, lines 101 to 162.\<close>

definition score_student ::
  "('d, 'e) env \<Rightarrow> string list \<Rightarrow> 'e list \<Rightarrow> 'd upload \<Rightarrow>
   error \<times> 'd event list + student_result \<times> 'd event list" where
  "score_student env teacher_answers teacher_embeddings student_pdf =
     (let (student_text, trace) = extract_text env (stream student_pdf);
          student_answers = split_answers student_text;
          student_result =
            \<lparr>pdf_name = filename student_pdf, questions = [], performance_score = 0\<rparr>
      in if length student_answers = 0 then Inr (student_result, trace)
         else
           let student_embeddings = map (encode env) student_answers
           in case score_loop env teacher_embeddings student_embeddings
                     [0 ..< min (length teacher_answers) (length student_answers)]
                     ([], [], trace @ [Encode student_answers]) of
                Inl e \<Rightarrow> Inl e
              | Inr (similarities, qs, trace') \<Rightarrow>
                  let overall =
                        (if similarities \<noteq> []
                         then (sum_list similarities / of_nat (length similarities)) * 100
                         else 0)
                  in Inr (student_result
                            \<lparr>questions := qs, performance_score := py_round2 overall\<rparr>,
                          trace'))"

fun students_loop ::
  "('d, 'e) env \<Rightarrow> string list \<Rightarrow> 'e list \<Rightarrow> 'd upload list \<Rightarrow>
   student_result list \<times> 'd event list \<Rightarrow>
   error \<times> 'd event list + student_result list \<times> 'd event list" where
  "students_loop env teacher_answers teacher_embeddings [] state = Inr state"
| "students_loop env teacher_answers teacher_embeddings (student_pdf # student_pdfs)
       (all_results, trace) =
     (case score_student env teacher_answers teacher_embeddings student_pdf of
        Inl (e, trace') \<Rightarrow> Inl (e, trace @ trace')
      | Inr (student_result, trace') \<Rightarrow>
          students_loop env teacher_answers teacher_embeddings student_pdfs
            (all_results @ [student_result], trace @ trace'))"

section \<open>The request handler\<close>

text \<open>
  \<open>request.files\<close> is a multi-dictionary: the uploaded files with their field names, in
  the order of the form. \<open>request.files["teacher"]\<close> is the first file of that name and
  \<open>getlist("students")\<close> all files of that name, in order. A response is a body with
  its HTTP status: 400 with an error message for a request that fails a check, 200 with the
  results, and 500 when an exception reaches the handler (lines 169 to 174). The handler
  returns its response together with the trace of the run.
\<close>

type_synonym 'd files = "(string \<times> 'd upload) list"

definition getlist :: "'d files \<Rightarrow> string \<Rightarrow> 'd upload list" where
  "getlist files key = map snd (filter (\<lambda>(k, f). k = key) files)"

datatype body =
    ErrorBody string
  | SuccessBody "student_result list"
  | FailureBody error

type_synonym response = "body \<times> nat"

definition analyze :: "('d, 'e) env \<Rightarrow> 'd files \<Rightarrow> response \<times> 'd event list" where
  "analyze env files =
     (case map_of files ''teacher'' of
        None \<Rightarrow> ((ErrorBody ''Teacher key not uploaded'', 400), [])
      | Some teacher_pdf \<Rightarrow>
          let student_pdfs = getlist files ''students''
          in if length student_pdfs = 0
             then ((ErrorBody ''No student files uploaded'', 400), [])
             else
               let (teacher_text, trace) = extract_text env (stream teacher_pdf);
                   teacher_answers = split_answers teacher_text
               in if length teacher_answers = 0
                  then ((ErrorBody ''Teacher answers could not be extracted'', 400), trace)
                  else
                    let teacher_embeddings = map (encode env) teacher_answers
                    in (case students_loop env teacher_answers teacher_embeddings student_pdfs
                               ([], trace @ [Encode teacher_answers]) of
                          Inl (e, trace') \<Rightarrow> ((FailureBody e, 500), trace')
                        | Inr (all_results, trace') \<Rightarrow>
                            ((SuccessBody all_results, 200), trace')))"

section \<open>The parts of a text\<close>

text \<open>
  What the pattern describes, in words. A delimiter is an optional \<open>Q\<close>, one or more
  digits and a period.
\<close>

definition is_delimiter :: "string \<Rightarrow> bool" where
  "is_delimiter d =
     (\<exists>ds. ds \<noteq> [] \<and> list_all is_digit ds \<and> (d = ds @ ''.'' \<or> d = ''Q'' @ ds @ ''.''))"

text \<open>
  A delimiter occurs at a position of a text, given the character before the position and
  the text from the position on, when the position is at a word boundary and a delimiter
  starts there.
\<close>

definition delimiter_at :: "char option \<Rightarrow> string \<Rightarrow> bool" where
  "delimiter_at prev s =
     (at_word_boundary prev s \<and> (\<exists>d rest. is_delimiter d \<and> s = d @ rest))"

text \<open>The character before the position that follows \<open>u\<close>.\<close>

definition char_before :: "char option \<Rightarrow> string \<Rightarrow> char option" where
  "char_before prev u = (if u = [] then prev else Some (last u))"

text \<open>
  The parts of a text. Either no delimiter occurs at any position of the text, and the
  text is its only part; or the text is a first part, in which no delimiter occurs at any
  position, then a delimiter that occurs there, then a text that has the other parts.
\<close>

inductive splits :: "char option \<Rightarrow> string \<Rightarrow> string list \<Rightarrow> bool" where
  whole:
    "(\<forall>u v. s = u @ v \<longrightarrow> \<not> delimiter_at (char_before prev u) v) \<Longrightarrow> splits prev s [s]"
| cut:
    "is_delimiter d \<Longrightarrow>
     at_word_boundary (char_before prev part) (d @ rest) \<Longrightarrow>
     (\<forall>u v. part = u @ v \<longrightarrow> v \<noteq> [] \<longrightarrow> \<not> delimiter_at (char_before prev u) (v @ d @ rest)) \<Longrightarrow>
     splits (Some (last d)) rest parts \<Longrightarrow>
     splits prev (part @ d @ rest) (part # parts)"

section \<open>What a request computes\<close>

text \<open>
  The result of a request in closed form, following the contract of the scorer: the
  answers of a document, the similarity of the pair at a position before the noise floor,
  the positions that are scored, and the question results, the performance score, the
  student result and the trace that they determine.
\<close>

definition answers_of :: "('d, 'e) env \<Rightarrow> 'd upload \<Rightarrow> string list" where
  "answers_of env pdf = split_answers (fst (extract_text env (stream pdf)))"

definition raw_similarity :: "('d, 'e) env \<Rightarrow> string list \<Rightarrow> string list \<Rightarrow> nat \<Rightarrow> rat" where
  "raw_similarity env ta sa i = cos_sim env (encode env (ta ! i)) (encode env (sa ! i))"

definition scored_pairs :: "string list \<Rightarrow> string list \<Rightarrow> nat list" where
  "scored_pairs ta sa = [0 ..< min (length ta) (length sa)]"

definition spec_question :: "('d, 'e) env \<Rightarrow> string list \<Rightarrow> string list \<Rightarrow> nat \<Rightarrow> question_result" where
  "spec_question env ta sa i =
     \<lparr>question_number = i + 1,
      similarity_percent = py_round2 (noise_floor (raw_similarity env ta sa i) * 100),
      status = status_of (py_round2 (noise_floor (raw_similarity env ta sa i) * 100))\<rparr>"

definition spec_performance :: "('d, 'e) env \<Rightarrow> string list \<Rightarrow> string list \<Rightarrow> rat" where
  "spec_performance env ta sa =
     (if scored_pairs ta sa = [] then 0
      else py_round2
             (sum_list (map (\<lambda>i. noise_floor (raw_similarity env ta sa i)) (scored_pairs ta sa))
                / of_nat (length (scored_pairs ta sa)) * 100))"

definition spec_result :: "('d, 'e) env \<Rightarrow> string list \<Rightarrow> 'd upload \<Rightarrow> student_result" where
  "spec_result env ta pdf =
     \<lparr>pdf_name = filename pdf,
      questions = map (spec_question env ta (answers_of env pdf)) (scored_pairs ta (answers_of env pdf)),
      performance_score = spec_performance env ta (answers_of env pdf)\<rparr>"

definition student_trace :: "('d, 'e) env \<Rightarrow> string list \<Rightarrow> 'd upload \<Rightarrow> 'd event list" where
  "student_trace env ta pdf =
     snd (extract_text env (stream pdf)) @
     (if answers_of env pdf = [] then []
      else Encode (answers_of env pdf) # map CosSim (scored_pairs ta (answers_of env pdf)))"

definition request_trace :: "('d, 'e) env \<Rightarrow> 'd upload \<Rightarrow> 'd upload list \<Rightarrow> 'd event list" where
  "request_trace env teacher_pdf student_pdfs =
     snd (extract_text env (stream teacher_pdf)) @
     Encode (answers_of env teacher_pdf) #
     concat (map (student_trace env (answers_of env teacher_pdf)) student_pdfs)"

section \<open>A request with a key and two answer sheets\<close>

text \<open>
  The similarities of the three answers of the first sheet are 0.9, 0.3 and 0.1; the second
  sheet has no text.
\<close>

definition example_key :: string where
  "example_key = ''1. The mitochondria is the powerhouse of the cell. 2. Water boils at one hundred degrees. 3. Paris is the capital city of France.''"

definition example_sheet :: string where
  "example_sheet = ''1. Mitochondria make energy for the whole cell. 2. Water freezes at zero degrees celsius. 3. I really do not know this answer.''"

definition example_env :: "(string, string) env" where
  "example_env =
     \<lparr>pdf_reader = (\<lambda>d. Some [PageText d]),
      ocr = (\<lambda>d. None),
      encode = (\<lambda>s. s),
      cos_sim = (\<lambda>t s. if s = ''Mitochondria make energy for the whole cell.'' then 9 / 10
                        else if s = ''Water freezes at zero degrees celsius.'' then 3 / 10
                        else 1 / 10)\<rparr>"

definition example_files :: "string files" where
  "example_files =
     [(''teacher'', \<lparr>filename = ''key.pdf'', stream = example_key\<rparr>),
      (''students'', \<lparr>filename = ''first.pdf'', stream = example_sheet\<rparr>),
      (''students'', \<lparr>filename = ''second.pdf'', stream = []\<rparr>)]"

definition example_results :: "student_result list" where
  "example_results =
     [\<lparr>pdf_name = ''first.pdf'',
       questions =
         [\<lparr>question_number = 1, similarity_percent = 90, status = ''Strong Understanding''\<rparr>,
          \<lparr>question_number = 2, similarity_percent = 30, status = ''Weak Understanding''\<rparr>,
          \<lparr>question_number = 3, similarity_percent = 0, status = ''Not Related''\<rparr>],
       performance_score = 40\<rparr>,
      \<lparr>pdf_name = ''second.pdf'', questions = [], performance_score = 0\<rparr>]"

section \<open>The loops in closed form\<close>

lemma round_half_even_0: "round_half_even 0 = 0"
  by (simp add: round_half_even_def)

lemma py_round2_0: "py_round2 0 = 0"
  by (simp add: py_round2_def round_half_even_0)

lemma floor_le_round_half_even: "\<lfloor>x\<rfloor> \<le> round_half_even x"
  by (simp add: round_half_even_def Let_def)

lemma py_round2_ge:
  assumes "of_int k / 100 \<le> x"
  shows "of_int k / 100 \<le> py_round2 x"
proof -
  from assms have "of_int k \<le> x * 100" by (simp add: field_simps)
  then have "k \<le> \<lfloor>x * 100\<rfloor>" by (simp add: le_floor_iff)
  also have "\<dots> \<le> round_half_even (x * 100)" by (rule floor_le_round_half_even)
  finally have "(of_int k :: rat) \<le> of_int (round_half_even (x * 100))" by simp
  then show ?thesis by (simp add: py_round2_def divide_right_mono)
qed

lemma score_loop_closed:
  assumes "\<forall>i \<in> set is. i < length te \<and> i < length se"
  shows "score_loop env te se is (sims, qs, tr) =
           Inr (sims @ map (\<lambda>i. noise_floor (cos_sim env (te ! i) (se ! i))) is,
                qs @ map (\<lambda>i. \<lparr>question_number = i + 1,
                                 similarity_percent = py_round2 (noise_floor (cos_sim env (te ! i) (se ! i)) * 100),
                                 status = status_of (py_round2 (noise_floor (cos_sim env (te ! i) (se ! i)) * 100))\<rparr>) is,
                tr @ map CosSim is)"
  using assms
proof (induction "is" arbitrary: sims qs tr)
  case Nil
  then show ?case by simp
next
  case (Cons i "is")
  then show ?case by (simp add: Let_def)
qed

lemma score_student_closed:
  "score_student env ta (map (encode env) ta) pdf =
     Inr (spec_result env ta pdf, student_trace env ta pdf)"
proof -
  obtain doc_text tr where ex: "extract_text env (stream pdf) = (doc_text, tr)"
    by (cases "extract_text env (stream pdf)")
  let ?sa = "split_answers doc_text"
  let ?n = "min (length ta) (length ?sa)"
  have sa: "answers_of env pdf = ?sa"
    by (simp add: answers_of_def ex)
  show ?thesis
  proof (cases "?sa = []")
    case True
    then show ?thesis
      by (simp add: score_student_def ex sa spec_result_def student_trace_def
          scored_pairs_def spec_performance_def Let_def)
  next
    case False
    have idx: "\<forall>i \<in> set [0 ..< ?n].
        i < length (map (encode env) ta) \<and> i < length (map (encode env) ?sa)"
      by simp
    have m1: "map (\<lambda>i. noise_floor (cos_sim env (map (encode env) ta ! i)
                  (map (encode env) ?sa ! i))) [0 ..< ?n]
            = map (\<lambda>i. noise_floor (raw_similarity env ta ?sa i)) [0 ..< ?n]"
      by (rule map_cong) (simp_all add: raw_similarity_def)
    have m2: "map (\<lambda>i. \<lparr>question_number = i + 1,
                  similarity_percent = py_round2 (noise_floor (cos_sim env
                     (map (encode env) ta ! i) (map (encode env) ?sa ! i)) * 100),
                  status = status_of (py_round2 (noise_floor (cos_sim env
                     (map (encode env) ta ! i) (map (encode env) ?sa ! i)) * 100))\<rparr>)
                [0 ..< ?n]
            = map (spec_question env ta ?sa) [0 ..< ?n]"
      by (rule map_cong) (simp_all add: raw_similarity_def spec_question_def)
    note loop = score_loop_closed [OF idx, of env "[]" "[]", unfolded m1 m2]
    from False show ?thesis
      by (simp add: score_student_def ex sa loop spec_result_def student_trace_def
          scored_pairs_def spec_performance_def py_round2_0 Let_def)
  qed
qed

lemma students_loop_closed:
  "students_loop env ta (map (encode env) ta) pdfs (rs, tr) =
     Inr (rs @ map (spec_result env ta) pdfs, tr @ concat (map (student_trace env ta) pdfs))"
  by (induction pdfs arbitrary: rs tr) (simp_all add: score_student_closed)

lemma analyze_success:
  assumes "map_of files ''teacher'' = Some t"
    and "getlist files ''students'' \<noteq> []"
    and "answers_of env t \<noteq> []"
  shows "analyze env files =
           ((SuccessBody (map (spec_result env (answers_of env t)) (getlist files ''students'')), 200),
            request_trace env t (getlist files ''students''))"
proof -
  obtain doc_text tr where ex: "extract_text env (stream t) = (doc_text, tr)"
    by (cases "extract_text env (stream t)")
  then have sa: "answers_of env t = split_answers doc_text"
    by (simp add: answers_of_def)
  from assms show ?thesis
    by (simp add: analyze_def ex sa students_loop_closed request_trace_def Let_def)
qed

lemma analyze_SuccessD:
  assumes "analyze env files = ((SuccessBody results, code), tr)"
  shows "\<exists>t. map_of files ''teacher'' = Some t \<and> getlist files ''students'' \<noteq> [] \<and>
             answers_of env t \<noteq> [] \<and>
             results = map (spec_result env (answers_of env t)) (getlist files ''students'') \<and>
             code = 200 \<and> tr = request_trace env t (getlist files ''students'')"
proof (cases "map_of files ''teacher''")
  case None
  with assms show ?thesis by (simp add: analyze_def)
next
  case (Some t)
  show ?thesis
  proof (cases "getlist files ''students'' = []")
    case True
    with assms Some show ?thesis by (simp add: analyze_def)
  next
    case students: False
    show ?thesis
    proof (cases "answers_of env t = []")
      case True
      with assms Some students show ?thesis
        by (simp add: analyze_def answers_of_def Let_def split: prod.splits)
    next
      case False
      from assms analyze_success [OF Some students False, of ] Some students False
      show ?thesis by simp
    qed
  qed
qed

lemma noise_floor_cases: "noise_floor x = 0 \<or> 20 / 100 \<le> noise_floor x"
  by (simp add: noise_floor_def)

lemma percent_cases:
  "py_round2 (noise_floor x * 100) = 0 \<or> 20 \<le> py_round2 (noise_floor x * 100)"
proof (cases "noise_floor x = 0")
  case True
  then show ?thesis by (simp add: py_round2_0)
next
  case False
  with noise_floor_cases [of x] have "20 / 100 \<le> noise_floor x" by simp
  then have "of_int 2000 / 100 \<le> noise_floor x * 100" by simp
  then have "of_int 2000 / 100 \<le> py_round2 (noise_floor x * 100)" by (rule py_round2_ge)
  then show ?thesis by simp
qed

lemma example_run:
  "fst (analyze example_env example_files) = (SuccessBody example_results, 200)"
  by code_simp

lemma example_answers:
  "answers_of example_env \<lparr>filename = ''key.pdf'', stream = example_key\<rparr> =
     [''The mitochondria is the powerhouse of the cell.'',
      ''Water boils at one hundred degrees.'',
      ''Paris is the capital city of France.'']"
  "answers_of example_env \<lparr>filename = ''first.pdf'', stream = example_sheet\<rparr> =
     [''Mitochondria make energy for the whole cell.'',
      ''Water freezes at zero degrees celsius.'',
      ''I really do not know this answer.'']"
  "answers_of example_env \<lparr>filename = ''second.pdf'', stream = []\<rparr> = []"
  by code_simp+

lemma analyze_result_nth:
  assumes "analyze env files = ((SuccessBody results, code), tr)"
    and "map_of files ''teacher'' = Some teacher_pdf"
    and "k < length results"
  shows "k < length (getlist files ''students'') \<and>
         length results = length (getlist files ''students'') \<and>
         results ! k =
           spec_result env (answers_of env teacher_pdf) (getlist files ''students'' ! k)"
  using analyze_SuccessD [OF assms(1)] assms(2,3) by auto

lemma questions_spec_result:
  "questions (spec_result env ta pdf) =
     map (spec_question env ta (answers_of env pdf))
       [0 ..< min (length ta) (length (answers_of env pdf))]"
  by (simp add: spec_result_def scored_pairs_def)


lemma example_teacher: 
  "map_of example_files ''teacher'' = Some \<lparr>filename = ''key.pdf'', stream = example_key\<rparr>"
  by (simp add: example_files_def)

lemma example_students:
  "getlist example_files ''students'' =
     [\<lparr>filename = ''first.pdf'', stream = example_sheet\<rparr>,
      \<lparr>filename = ''second.pdf'', stream = []\<rparr>]"
  by (simp add: example_files_def getlist_def)

lemma example_run_full:
  "analyze example_env example_files =
     ((SuccessBody example_results, 200), snd (analyze example_env example_files))"
  using example_run by (cases "analyze example_env example_files") simp



section \<open>The scores of a response\<close>

text \<open>
  Claim C1, amended. In a successful response, question \<open>i\<close> of student \<open>k\<close> reports the
  percentage \<open>p\<close> that is the similarity of the pair after the noise floor, times 100,
  rounded to two decimals; \<open>p\<close> is not negative, and the status is \<open>Strong Understanding\<close>
  when \<open>p \<ge> 75\<close>, else \<open>Partial Understanding\<close> when \<open>p \<ge> 45\<close>, else
  \<open>Weak Understanding\<close> when \<open>p > 0\<close>, else \<open>Not Related\<close>. The boundary values 75 and
  45 fall in the higher bucket; the boundary value 0 falls in the lower one, \<open>Not Related\<close>.
\<close>

theorem status_by_thresholds:
  assumes "analyze env files = ((SuccessBody results, code), tr)"
    and "map_of files ''teacher'' = Some teacher_pdf"
    and "k < length results"
    and "i < length (questions (results ! k))"
  shows "(let q = questions (results ! k) ! i;
              p = similarity_percent q;
              raw = raw_similarity env (answers_of env teacher_pdf)
                      (answers_of env (getlist files ''students'' ! k)) i
          in p = py_round2 (noise_floor raw * 100) \<and> 0 \<le> p \<and>
             status q =
               (if p \<ge> 75 then ''Strong Understanding''
                else if p \<ge> 45 then ''Partial Understanding''
                else if p > 0 then ''Weak Understanding''
                else ''Not Related'')) \<and>
         status_of 75 = ''Strong Understanding'' \<and>
         status_of 45 = ''Partial Understanding'' \<and>
         status_of 0 = ''Not Related''"
proof -
  let ?ta = "answers_of env teacher_pdf"
  let ?pdf = "getlist files ''students'' ! k"
  let ?raw = "raw_similarity env ?ta (answers_of env ?pdf) i"
  from analyze_result_nth [OF assms(1,2,3)]
  have r: "results ! k = spec_result env ?ta ?pdf" by simp
  with assms(4) have i: "i < min (length ?ta) (length (answers_of env ?pdf))"
    by (simp add: questions_spec_result)
  with r have q: "questions (results ! k) ! i = spec_question env ?ta (answers_of env ?pdf) i"
    by (simp add: questions_spec_result)
  have nonneg: "0 \<le> py_round2 (noise_floor ?raw * 100)"
    using percent_cases [of ?raw] by auto
  show ?thesis
    using nonneg by (simp add: q spec_question_def status_of_def Let_def)
qed

text \<open>The second answer of the first sheet of the example has 30 percent and is weak.\<close>

theorem status_by_thresholds_witness:
  "analyze example_env example_files =
     ((SuccessBody example_results, 200), snd (analyze example_env example_files)) \<and>
   status (questions (example_results ! 0) ! 1) = ''Weak Understanding'' \<and>
   similarity_percent (questions (example_results ! 0) ! 1) = 30"
proof -
  have i: "1 < length (questions (example_results ! 0))"
    by (simp add: example_results_def)
  have k: "0 < length example_results"
    by (simp add: example_results_def)
  from status_by_thresholds [OF example_run_full example_teacher k i]
  have "status (questions (example_results ! 0) ! 1) =
          (if similarity_percent (questions (example_results ! 0) ! 1) \<ge> 75 then ''Strong Understanding''
           else if similarity_percent (questions (example_results ! 0) ! 1) \<ge> 45 then ''Partial Understanding''
           else if similarity_percent (questions (example_results ! 0) ! 1) > 0 then ''Weak Understanding''
           else ''Not Related'')"
    by (simp add: Let_def)
  moreover have "similarity_percent (questions (example_results ! 0) ! 1) = 30"
    by (simp add: example_results_def)
  ultimately show ?thesis using example_run_full by simp
qed

text \<open>
  Claim C1 as stated has the boundary value 0 in the higher bucket. In the example the third
  answer of the first sheet has the similarity 0.1; it is reported with 0 percent, and its
  status is \<open>Not Related\<close>, the lower bucket of the boundary 0, not
  \<open>Weak Understanding\<close>.
\<close>

theorem status_zero_counterexample:
  "fst (analyze example_env example_files) = (SuccessBody example_results, 200) \<and>
   similarity_percent (questions (example_results ! 0) ! 2) = 0 \<and>
   status (questions (example_results ! 0) ! 2) = ''Not Related'' \<and>
   status (questions (example_results ! 0) ! 2) \<noteq> ''Weak Understanding''"
  using example_run by (simp add: example_results_def)





text \<open>
  Claim C4. In a successful response, student \<open>k\<close> has as many question results as the
  shorter of the teacher's and the student's answer lists has answers; they are numbered
  1, 2, ... in order, so no question number exceeds the number of the student's answers.
\<close>

theorem question_count:
  assumes "analyze env files = ((SuccessBody results, code), tr)"
    and "map_of files ''teacher'' = Some teacher_pdf"
    and "k < length results"
  shows "(let n = min (length (answers_of env teacher_pdf))
                      (length (answers_of env (getlist files ''students'' ! k)))
          in length (questions (results ! k)) = n \<and>
             map question_number (questions (results ! k)) = [1 ..< Suc n] \<and>
             (\<forall>q \<in> set (questions (results ! k)).
                question_number q \<le> length (answers_of env (getlist files ''students'' ! k))))"
proof -
  let ?ta = "answers_of env teacher_pdf"
  let ?sa = "answers_of env (getlist files ''students'' ! k)"
  let ?n = "min (length ?ta) (length ?sa)"
  from analyze_result_nth [OF assms]
  have r: "results ! k = spec_result env ?ta (getlist files ''students'' ! k)" by simp
  have len: "length (questions (results ! k)) = ?n"
    by (simp add: r questions_spec_result)
  have "map question_number (questions (results ! k)) = map Suc [0 ..< ?n]"
    by (simp add: r questions_spec_result spec_question_def)
  then have nums: "map question_number (questions (results ! k)) = [1 ..< Suc ?n]"
    by (simp add: map_Suc_upt)
  have "\<forall>q \<in> set (questions (results ! k)). question_number q \<le> length ?sa"
  proof
    fix q assume "q \<in> set (questions (results ! k))"
    then have "question_number q \<in> set (map question_number (questions (results ! k)))"
      by simp
    then have "question_number q \<in> set [1 ..< Suc ?n]"
      by (simp only: nums)
    then show "question_number q \<le> length ?sa" by auto
  qed
  with len nums show ?thesis by (simp add: Let_def)
qed

text \<open>The two sheets of the example have three question results and none.\<close>

theorem question_count_witness:
  "length (questions (example_results ! 0)) = 3 \<and>
   map question_number (questions (example_results ! 0)) = [1, 2, 3] \<and>
   length (questions (example_results ! 1)) = 0"
proof -
  have k0: "0 < length example_results" and k1: "1 < length example_results"
    by (simp_all add: example_results_def)
  have "[1 ..< Suc 3] = [1, 2, 3::nat]"
    by (simp add: upt_rec)
  with question_count [OF example_run_full example_teacher k0]
  have "length (questions (example_results ! 0)) = 3 \<and>
        map question_number (questions (example_results ! 0)) = [1, 2, 3]"
    by (simp add: Let_def example_students example_answers)
  moreover from question_count [OF example_run_full example_teacher k1]
  have "length (questions (example_results ! 1)) = 0"
    by (simp add: Let_def example_students example_answers)
  ultimately show ?thesis by simp
qed

text \<open>
  Claim C10. In a successful response, every reported percentage is 0 or at least 20, and
  the status is \<open>Weak Understanding\<close> exactly for the percentages from 20 up to, and not
  including, 45.
\<close>

theorem percent_zero_or_at_least_20:
  assumes "analyze env files = ((SuccessBody results, code), tr)"
    and "map_of files ''teacher'' = Some teacher_pdf"
    and "k < length results"
    and "i < length (questions (results ! k))"
  shows "(let q = questions (results ! k) ! i; p = similarity_percent q
          in (p = 0 \<or> 20 \<le> p) \<and>
             (status q = ''Weak Understanding'' \<longleftrightarrow> 20 \<le> p \<and> p < 45))"
proof -
  let ?ta = "answers_of env teacher_pdf"
  let ?pdf = "getlist files ''students'' ! k"
  let ?raw = "raw_similarity env ?ta (answers_of env ?pdf) i"
  from analyze_result_nth [OF assms(1,2,3)]
  have r: "results ! k = spec_result env ?ta ?pdf" by simp
  with assms(4) have i: "i < min (length ?ta) (length (answers_of env ?pdf))"
    by (simp add: questions_spec_result)
  with r have q: "questions (results ! k) ! i = spec_question env ?ta (answers_of env ?pdf) i"
    by (simp add: questions_spec_result)
  from percent_cases [of ?raw] show ?thesis
    by (auto simp: q spec_question_def status_of_def Let_def)
qed

text \<open>The second answer of the first sheet of the example: 30 percent, weak.\<close>

theorem percent_zero_or_at_least_20_witness:
  "(similarity_percent (questions (example_results ! 0) ! 1) = 0 \<or>
    20 \<le> similarity_percent (questions (example_results ! 0) ! 1)) \<and>
   status (questions (example_results ! 0) ! 1) = ''Weak Understanding'' \<and>
   similarity_percent (questions (example_results ! 0) ! 1) = 30"
proof -
  have i: "1 < length (questions (example_results ! 0))"
    by (simp add: example_results_def)
  have k: "0 < length example_results"
    by (simp add: example_results_def)
  have p: "similarity_percent (questions (example_results ! 0) ! 1) = 30"
    by (simp add: example_results_def)
  from percent_zero_or_at_least_20 [OF example_run_full example_teacher k i] p
  show ?thesis by (simp add: Let_def)
qed

section \<open>Validation and extraction\<close>

lemma extract_text_trace:
  "snd (extract_text env d) = [DirectExtraction d] \<or>
   snd (extract_text env d) = [DirectExtraction d, OcrFallback d]"
  by (simp add: extract_text_def split: prod.splits)

lemma read_pages_text:
  "read_pages acc (map PageText texts) =
     (acc @ concat (map (\<lambda>t. t @ [CHR 0x0A]) (filter (\<lambda>t. t \<noteq> []) texts)), False)"
  by (induction texts arbitrary: acc) simp_all

lemma analyze_no_answers:
  assumes "map_of files ''teacher'' = Some teacher_pdf"
    and "getlist files ''students'' \<noteq> []"
    and "answers_of env teacher_pdf = []"
  shows "analyze env files =
           ((ErrorBody ''Teacher answers could not be extracted'', 400),
            snd (extract_text env (stream teacher_pdf)))"
proof -
  obtain doc_text tr where ex: "extract_text env (stream teacher_pdf) = (doc_text, tr)"
    by (cases "extract_text env (stream teacher_pdf)")
  with assms(3) have "split_answers doc_text = []"
    by (simp add: answers_of_def)
  with assms(1,2) ex show ?thesis
    by (simp add: analyze_def Let_def)
qed

text \<open>
  Claim C7. The three checks of a request come in this order, and each ends the request
  with the status 400 and a message of its own: without a file named \<open>teacher\<close> the
  message is \<open>Teacher key not uploaded\<close>, whatever else is uploaded, and nothing is
  extracted; with a teacher file and no file named \<open>students\<close> it is
  \<open>No student files uploaded\<close>, and nothing is extracted; with both, and a teacher
  document that has no answers, it is \<open>Teacher answers could not be extracted\<close>, and
  the trace holds the extraction of the teacher document and nothing else.
\<close>

theorem validation_order:
  "(''teacher'' \<notin> fst ` set files \<longrightarrow>
      analyze env files = ((ErrorBody ''Teacher key not uploaded'', 400), [])) \<and>
   (map_of files ''teacher'' = Some teacher_pdf \<and> getlist files ''students'' = [] \<longrightarrow>
      analyze env files = ((ErrorBody ''No student files uploaded'', 400), [])) \<and>
   (map_of files ''teacher'' = Some teacher_pdf \<and> getlist files ''students'' \<noteq> [] \<and>
    answers_of env teacher_pdf = [] \<longrightarrow>
      analyze env files =
        ((ErrorBody ''Teacher answers could not be extracted'', 400),
         snd (extract_text env (stream teacher_pdf))) \<and>
      set (snd (analyze env files)) \<subseteq>
        {DirectExtraction (stream teacher_pdf), OcrFallback (stream teacher_pdf)}) \<and>
   distinct [''Teacher key not uploaded'', ''No student files uploaded'',
             ''Teacher answers could not be extracted'']"
proof -
  have first: "analyze env files = ((ErrorBody ''Teacher key not uploaded'', 400), [])"
    if "''teacher'' \<notin> fst ` set files"
  proof -
    from that have "map_of files ''teacher'' = None"
      by (simp add: map_of_eq_None_iff)
    then show ?thesis by (simp add: analyze_def)
  qed
  have second: "analyze env files = ((ErrorBody ''No student files uploaded'', 400), [])"
    if "map_of files ''teacher'' = Some teacher_pdf" and "getlist files ''students'' = []"
    using that by (simp add: analyze_def)
  have third: "analyze env files =
        ((ErrorBody ''Teacher answers could not be extracted'', 400),
         snd (extract_text env (stream teacher_pdf))) \<and>
      set (snd (analyze env files)) \<subseteq>
        {DirectExtraction (stream teacher_pdf), OcrFallback (stream teacher_pdf)}"
    if "map_of files ''teacher'' = Some teacher_pdf" and "getlist files ''students'' \<noteq> []"
      and "answers_of env teacher_pdf = []"
  proof -
    note eq = analyze_no_answers [OF that]
    from extract_text_trace [of env "stream teacher_pdf"]
    have "set (snd (extract_text env (stream teacher_pdf))) \<subseteq>
        {DirectExtraction (stream teacher_pdf), OcrFallback (stream teacher_pdf)}"
      by auto
    with eq show ?thesis by simp
  qed
  have "distinct [''Teacher key not uploaded'', ''No student files uploaded'',
             ''Teacher answers could not be extracted'']"
    by simp
  with first second third show ?thesis by blast
qed

text \<open>Three requests, one for each message.\<close>

theorem validation_order_witness:
  "analyze example_env [(''students'', \<lparr>filename = ''first.pdf'', stream = example_sheet\<rparr>)] =
     ((ErrorBody ''Teacher key not uploaded'', 400), []) \<and>
   analyze example_env [(''teacher'', \<lparr>filename = ''key.pdf'', stream = example_key\<rparr>)] =
     ((ErrorBody ''No student files uploaded'', 400), []) \<and>
   analyze example_env
     [(''teacher'', \<lparr>filename = ''key.pdf'', stream = ''1. Too short.''\<rparr>),
      (''students'', \<lparr>filename = ''first.pdf'', stream = example_sheet\<rparr>)] =
     ((ErrorBody ''Teacher answers could not be extracted'', 400),
      [DirectExtraction ''1. Too short.'', OcrFallback ''1. Too short.''])"
proof -
  let ?f1 = "[(''students'', \<lparr>filename = ''first.pdf'', stream = example_sheet\<rparr>)]"
  let ?t2 = "\<lparr>filename = ''key.pdf'', stream = example_key\<rparr>"
  let ?f2 = "[(''teacher'', ?t2)]"
  let ?t3 = "\<lparr>filename = ''key.pdf'', stream = ''1. Too short.''\<rparr>"
  let ?f3 = "[(''teacher'', ?t3),
      (''students'', \<lparr>filename = ''first.pdf'', stream = example_sheet\<rparr>)]"
  have h1: "''teacher'' \<notin> fst ` set ?f1" by simp
  have h2: "map_of ?f2 ''teacher'' = Some ?t2 \<and> getlist ?f2 ''students'' = []"
    by (simp add: getlist_def)
  have ex: "extract_text example_env ''1. Too short.'' =
              (''1. Too short.'' @ [CHR 0x0A],
               [DirectExtraction ''1. Too short.'', OcrFallback ''1. Too short.''])"
    by code_simp
  have "split_answers (''1. Too short.'' @ [CHR 0x0A]) = []"
    by code_simp
  with ex have h3: "map_of ?f3 ''teacher'' = Some ?t3 \<and> getlist ?f3 ''students'' \<noteq> [] \<and>
      answers_of example_env ?t3 = []"
    by (simp add: getlist_def answers_of_def)
  from validation_order [where files = ?f1 and env = example_env] h1
  have "analyze example_env ?f1 = ((ErrorBody ''Teacher key not uploaded'', 400), [])"
    by blast
  moreover from validation_order [where files = ?f2 and teacher_pdf = ?t2 and env = example_env] h2
  have "analyze example_env ?f2 = ((ErrorBody ''No student files uploaded'', 400), [])"
    by blast
  moreover from validation_order [where files = ?f3 and teacher_pdf = ?t3 and env = example_env] h3
  have "analyze example_env ?f3 = ((ErrorBody ''Teacher answers could not be extracted'', 400),
      snd (extract_text example_env (stream ?t3)))"
    by blast
  ultimately show ?thesis by (simp add: ex)
qed

text \<open>
  Claim C9. When the reader gives the pages of a document, no page raises, and the text of
  the pages, each page with text followed by a newline, has more than 50 characters after
  stripping, \<open>extract_text\<close> returns that text; the trace holds the direct extraction
  only, and the result is the same whatever the OCR engine would have returned.
\<close>

theorem direct_text_skips_ocr:
  assumes "pdf_reader env pdf_file = Some (map PageText texts)"
    and "50 < length (strip (concat (map (\<lambda>t. t @ [CHR 0x0A]) (filter (\<lambda>t. t \<noteq> []) texts))))"
  shows "extract_text env pdf_file =
           (concat (map (\<lambda>t. t @ [CHR 0x0A]) (filter (\<lambda>t. t \<noteq> []) texts)),
            [DirectExtraction pdf_file]) \<and>
         OcrFallback pdf_file \<notin> set (snd (extract_text env pdf_file)) \<and>
         (\<forall>engine. extract_text (env\<lparr>ocr := engine\<rparr>) pdf_file = extract_text env pdf_file)"
proof -
  let ?text = "concat (map (\<lambda>t. t @ [CHR 0x0A]) (filter (\<lambda>t. t \<noteq> []) texts))"
  have direct: "direct_extraction (env\<lparr>ocr := engine\<rparr>) pdf_file = (?text, False)" for engine
    using assms(1) by (simp add: direct_extraction_def read_pages_text)
  have "extract_text (env\<lparr>ocr := engine\<rparr>) pdf_file = (?text, [DirectExtraction pdf_file])"
    for engine
    using assms(2) by (simp add: extract_text_def direct)
  from this [of "ocr env"] this show ?thesis by simp
qed

text \<open>The key of the example is read directly.\<close>

theorem direct_text_skips_ocr_witness:
  "50 < length (strip (example_key @ [CHR 0x0A])) \<and>
   extract_text example_env example_key =
     (example_key @ [CHR 0x0A], [DirectExtraction example_key])"
proof -
  have r: "pdf_reader example_env example_key = Some (map PageText [example_key])"
    by (simp add: example_env_def)
  have "example_key \<noteq> []"
    by (simp add: example_key_def)
  then have c: "concat (map (\<lambda>t. t @ [CHR 0x0A]) (filter (\<lambda>t. t \<noteq> []) [example_key])) =
      example_key @ [CHR 0x0A]"
    by simp
  have l: "50 < length (strip (example_key @ [CHR 0x0A]))"
    by code_simp
  from direct_text_skips_ocr [OF r] l c show ?thesis by simp
qed



section \<open>The split of a text\<close>

lemma digit_not_Q: "is_digit c \<Longrightarrow> c \<noteq> CHR ''Q''"
  by (auto simp: is_digit_def code_point_def)

lemma period_not_digit: "\<not> is_digit CHR ''.''"
  by (simp add: is_digit_def code_point_def)

lemma is_delimiter_nonempty: "is_delimiter d \<Longrightarrow> d \<noteq> []"
  by (auto simp: is_delimiter_def)

lemma is_delimiter_last: "is_delimiter d \<Longrightarrow> last d = CHR ''.''"
  by (auto simp: is_delimiter_def)

lemma digits_then_period:
  assumes "ds \<noteq> []" and "list_all is_digit ds"
  shows "takeWhile is_digit (ds @ CHR ''.'' # rest) = ds"
    and "dropWhile is_digit (ds @ CHR ''.'' # rest) = CHR ''.'' # rest"
    and "skip_Q (ds @ CHR ''.'' # rest) = ds @ CHR ''.'' # rest"
proof -
  from assms(2) have all: "\<And>x. x \<in> set ds \<Longrightarrow> is_digit x"
    by (simp add: list_all_iff)
  then show "takeWhile is_digit (ds @ CHR ''.'' # rest) = ds"
    by (simp add: period_not_digit)
  from all show "dropWhile is_digit (ds @ CHR ''.'' # rest) = CHR ''.'' # rest"
    by (simp add: period_not_digit)
  from assms(1) obtain c cs where ds: "ds = c # cs"
    by (cases ds) auto
  with all have "c \<noteq> CHR ''Q''"
    by (auto dest: digit_not_Q)
  with ds show "skip_Q (ds @ CHR ''.'' # rest) = ds @ CHR ''.'' # rest"
    by (simp add: skip_Q_def)
qed

lemma match_delimiter_complete:
  assumes "at_word_boundary prev (d @ rest)" and "is_delimiter d"
  shows "match_delimiter prev (d @ rest) = Some rest"
proof -
  from assms(2) obtain ds where ds: "ds \<noteq> []" "list_all is_digit ds"
    and d: "d = ds @ ''.'' \<or> d = ''Q'' @ ds @ ''.''"
    by (auto simp: is_delimiter_def)
  from d have "skip_Q (d @ rest) = ds @ CHR ''.'' # rest"
  proof
    assume "d = ds @ ''.''"
    with digits_then_period(3) [OF ds] show ?thesis by simp
  next
    assume "d = ''Q'' @ ds @ ''.''"
    then show ?thesis by (simp add: skip_Q_def)
  qed
  with assms(1) digits_then_period(1,2) [OF ds] ds(1) show ?thesis
    by (simp add: match_delimiter_def)
qed

lemma match_delimiter_sound:
  assumes "match_delimiter prev s = Some rest"
  shows "at_word_boundary prev s \<and> (\<exists>d. is_delimiter d \<and> s = d @ rest)"
proof -
  define ds where "ds = takeWhile is_digit (skip_Q s)"
  from assms have b: "at_word_boundary prev s" and ne: "ds \<noteq> []"
    and dw: "dropWhile is_digit (skip_Q s) = CHR ''.'' # rest"
    by (auto simp: match_delimiter_def ds_def split: if_splits list.splits)
  have "ds @ dropWhile is_digit (skip_Q s) = skip_Q s"
    by (simp add: ds_def)
  with dw have sk: "skip_Q s = ds @ ''.'' @ rest"
    by simp
  have digits: "list_all is_digit ds"
    by (auto simp: ds_def list_all_iff dest: set_takeWhileD)
  have "s = ds @ ''.'' @ rest \<or> s = ''Q'' @ ds @ ''.'' @ rest"
  proof (cases s)
    case Nil
    with sk show ?thesis by (simp add: skip_Q_def)
  next
    case (Cons c r)
    with sk show ?thesis by (cases "c = CHR ''Q''") (simp_all add: skip_Q_def)
  qed
  then have "\<exists>d. is_delimiter d \<and> s = d @ rest"
  proof
    assume "s = ds @ ''.'' @ rest"
    with ne digits have "is_delimiter (ds @ ''.'') \<and> s = (ds @ ''.'') @ rest"
      unfolding is_delimiter_def by (intro conjI exI [of _ ds]) simp_all
    then show ?thesis by blast
  next
    assume "s = ''Q'' @ ds @ ''.'' @ rest"
    with ne digits have "is_delimiter (''Q'' @ ds @ ''.'') \<and> s = (''Q'' @ ds @ ''.'') @ rest"
      unfolding is_delimiter_def by (intro conjI exI [of _ ds]) simp_all
    then show ?thesis by blast
  qed
  with b show ?thesis by simp
qed

lemma match_delimiter_None:
  "match_delimiter prev s = None \<longleftrightarrow> \<not> delimiter_at prev s"
proof
  assume none: "match_delimiter prev s = None"
  show "\<not> delimiter_at prev s"
  proof
    assume "delimiter_at prev s"
    then obtain d rest where "at_word_boundary prev s" "is_delimiter d" "s = d @ rest"
      by (auto simp: delimiter_at_def)
    then have "match_delimiter prev s = Some rest"
      using match_delimiter_complete by simp
    with none show False by simp
  qed
next
  assume no: "\<not> delimiter_at prev s"
  show "match_delimiter prev s = None"
  proof (cases "match_delimiter prev s")
    case None
    then show ?thesis .
  next
    case (Some rest)
    from match_delimiter_sound [OF Some] have "delimiter_at prev s"
      by (auto simp: delimiter_at_def)
    with no show ?thesis by simp
  qed
qed

lemma char_before_snoc: "char_before prev (u @ [c]) = Some c"
  by (simp add: char_before_def)

lemma char_before_Nil: "char_before prev [] = prev"
  by (simp add: char_before_def)

lemma re_split_from_splits:
  assumes "\<forall>u v. part = u @ v \<longrightarrow> v \<noteq> [] \<longrightarrow> \<not> delimiter_at (char_before prev0 u) (v @ s)"
    and "prev = char_before prev0 part"
  shows "splits prev0 (part @ s) (re_split_from prev part s)"
  using assms
proof (induction prev part s arbitrary: prev0 rule: re_split_from.induct)
  case (1 prev part)
  have "\<not> delimiter_at (char_before prev0 u) v" if "part = u @ v" for u v
  proof (cases "v = []")
    case True
    then show ?thesis
      by (auto simp: delimiter_at_def dest: is_delimiter_nonempty)
  next
    case False
    with 1(1) that show ?thesis by simp
  qed
  then have "splits prev0 part [part]"
    by (intro splits.whole) blast
  then show ?case by simp
next
  case (2 prev part c cs)
  show ?case
  proof (cases "match_delimiter prev (c # cs)")
    case None
    then have no: "\<not> delimiter_at prev (c # cs)"
      by (simp add: match_delimiter_None)
    have "\<not> delimiter_at (char_before prev0 u) (v @ cs)"
      if "part @ [c] = u @ v" and "v \<noteq> []" for u v
    proof (cases "v = [c]")
      case True
      with that have "u = part" by simp
      with no True 2(4) show ?thesis by simp
    next
      case False
      with that obtain v' where v: "v = v' @ [c]" and v': "v' \<noteq> []" and p: "part = u @ v'"
        by (cases v rule: rev_cases) auto
      with 2(3) have "\<not> delimiter_at (char_before prev0 u) (v' @ c # cs)"
        by blast
      with v show ?thesis by simp
    qed
    then have "splits prev0 ((part @ [c]) @ cs) (re_split_from (Some c) (part @ [c]) cs)"
      by (intro 2(1) [OF None]) (auto simp: char_before_snoc)
    with None show ?thesis by simp
  next
    case (Some rest)
    from match_delimiter_sound [OF Some] obtain d
      where b: "at_word_boundary prev (c # cs)" and d: "is_delimiter d" and s: "c # cs = d @ rest"
      by blast
    have "splits (Some CHR ''.'') ([] @ rest) (re_split_from (Some CHR ''.'') [] rest)"
      by (intro 2(2) [OF Some]) (simp_all add: char_before_Nil)
    then have rest: "splits (Some (last d)) rest (re_split_from (Some CHR ''.'') [] rest)"
      using d by (simp add: is_delimiter_last)
    from b s 2(4) have b': "at_word_boundary (char_before prev0 part) (d @ rest)"
      by simp
    from 2(3) s have
      "\<forall>u v. part = u @ v \<longrightarrow> v \<noteq> [] \<longrightarrow> \<not> delimiter_at (char_before prev0 u) (v @ d @ rest)"
      by simp
    with d b' rest have "splits prev0 (part @ d @ rest) (part # re_split_from (Some CHR ''.'') [] rest)"
      by (intro splits.cut)
    moreover from Some
    have "re_split_from prev part (c # cs) = part # re_split_from (Some CHR ''.'') [] rest"
      by simp
    ultimately show ?thesis by (simp only: s [symmetric])
  qed
qed

lemma re_split_from_scan:
  assumes "\<forall>u v. p = u @ v \<longrightarrow> v \<noteq> [] \<longrightarrow> \<not> delimiter_at (char_before prev (acc @ u)) (v @ t)"
  shows "re_split_from (char_before prev acc) acc (p @ t) =
         re_split_from (char_before prev (acc @ p)) (acc @ p) t"
  using assms
proof (induction p arbitrary: acc)
  case Nil
  then show ?case by simp
next
  case (Cons c p)
  from Cons.prems have "\<not> delimiter_at (char_before prev (acc @ [])) ((c # p) @ t)"
    by blast
  then have none: "match_delimiter (char_before prev acc) (c # p @ t) = None"
    by (simp add: match_delimiter_None)
  have "\<forall>u v. p = u @ v \<longrightarrow> v \<noteq> [] \<longrightarrow>
      \<not> delimiter_at (char_before prev ((acc @ [c]) @ u)) (v @ t)"
  proof (intro allI impI)
    fix u v assume "p = u @ v" and "v \<noteq> []"
    then have "c # p = (c # u) @ v" by simp
    with Cons.prems \<open>v \<noteq> []\<close> have "\<not> delimiter_at (char_before prev (acc @ c # u)) (v @ t)"
      by blast
    then show "\<not> delimiter_at (char_before prev ((acc @ [c]) @ u)) (v @ t)" by simp
  qed
  from Cons.IH [OF this] none show ?case
    by (simp add: char_before_snoc)
qed

lemma splits_re_split_from:
  assumes "splits prev s parts"
  shows "re_split_from prev [] s = parts"
  using assms
proof (induction rule: splits.induct)
  case (whole s prev)
  then have "\<forall>u v. s = u @ v \<longrightarrow> v \<noteq> [] \<longrightarrow>
      \<not> delimiter_at (char_before prev ([] @ u)) (v @ [])"
    by simp
  from re_split_from_scan [OF this] show ?case
    by (simp add: char_before_Nil)
next
  case (cut d prev part rest parts)
  from cut(3) have "\<forall>u v. part = u @ v \<longrightarrow> v \<noteq> [] \<longrightarrow>
      \<not> delimiter_at (char_before prev ([] @ u)) (v @ d @ rest)"
    by simp
  from re_split_from_scan [OF this]
  have "re_split_from prev [] (part @ d @ rest) =
        re_split_from (char_before prev part) part (d @ rest)"
    by (simp add: char_before_Nil)
  moreover from cut(1) obtain c cs where dc: "d @ rest = c # cs"
    by (cases "d @ rest") (auto dest: is_delimiter_nonempty)
  moreover from match_delimiter_complete [OF cut(2,1)]
  have "match_delimiter (char_before prev part) (d @ rest) = Some rest" .
  ultimately have "re_split_from prev [] (part @ d @ rest) =
      part # re_split_from (Some CHR ''.'') [] rest"
    by simp
  with cut(1,5) show ?case
    by (simp add: is_delimiter_last)
qed

lemma splits_iff: "splits None text parts \<longleftrightarrow> parts = re_split text"
proof
  assume "splits None text parts"
  then show "parts = re_split text"
    by (simp add: re_split_def splits_re_split_from)
next
  assume "parts = re_split text"
  moreover have "splits None ([] @ text) (re_split_from None [] text)"
    by (rule re_split_from_splits) (simp_all add: char_before_Nil)
  ultimately show "splits None text parts"
    by (simp add: re_split_def)
qed

lemma split_loop_filter:
  "split_loop cleaned parts = cleaned @ filter (\<lambda>p. 20 < length p) (map strip parts)"
  by (induction parts arbitrary: cleaned) (simp_all add: Let_def)

lemma split_answers_filter:
  "split_answers text = filter (\<lambda>p. 20 < length p) (map strip (re_split text))"
  by (simp add: split_answers_def split_loop_filter)

lemma is_delimiter_digits:
  "ds \<noteq> [] \<Longrightarrow> list_all is_digit ds \<Longrightarrow> is_delimiter (ds @ ''.'')"
  unfolding is_delimiter_def by (intro exI [of _ ds]) simp

text \<open>
  Claim C5, amended. A text has exactly one list of parts: it is split at every delimiter
  that occurs at a word boundary, from left to right, and the delimiters are dropped.
  \<open>split_answers\<close> returns the parts, each stripped of white space at both ends,
  that are longer than 20 characters after stripping, in their order. The text
  \<open>1. Hello world this is long enough. 2. Short.\<close> gives the first answer only.
\<close>

theorem split_answers_at_word_boundaries:
  "(\<exists>parts. splits None text parts \<and>
            (\<forall>parts'. splits None text parts' \<longrightarrow> parts' = parts) \<and>
            split_answers text = filter (\<lambda>p. 20 < length p) (map strip parts)) \<and>
   split_answers ''1. Hello world this is long enough. 2. Short.'' =
     [''Hello world this is long enough.'']"
proof -
  have "splits None text (re_split text)"
    by (simp add: splits_iff)
  moreover have "\<forall>parts'. splits None text parts' \<longrightarrow> parts' = re_split text"
    by (simp add: splits_iff)
  moreover have "split_answers text = filter (\<lambda>p. 20 < length p) (map strip (re_split text))"
    by (rule split_answers_filter)
  moreover have "split_answers ''1. Hello world this is long enough. 2. Short.'' =
     [''Hello world this is long enough.'']"
    by code_simp
  ultimately show ?thesis by blast
qed

text \<open>The three parts of that text.\<close>

theorem split_answers_at_word_boundaries_witness:
  "splits None ''1. Hello world this is long enough. 2. Short.''
     [[], '' Hello world this is long enough. '', '' Short.''] \<and>
   split_answers ''1. Hello world this is long enough. 2. Short.'' =
     filter (\<lambda>p. 20 < length p)
       (map strip [[], '' Hello world this is long enough. '', '' Short.''])"
proof -
  let ?text = "''1. Hello world this is long enough. 2. Short.''"
  from split_answers_at_word_boundaries [of ?text]
  obtain parts where s: "splits None ?text parts"
    and a: "split_answers ?text = filter (\<lambda>p. 20 < length p) (map strip parts)"
    by blast
  from s have "parts = re_split ?text"
    by (simp add: splits_iff)
  moreover have "re_split ?text = [[], '' Hello world this is long enough. '', '' Short.'']"
    by code_simp
  ultimately have "parts = [[], '' Hello world this is long enough. '', '' Short.'']"
    by simp
  with s a show ?thesis by simp
qed

text \<open>
  Claim C5 as stated splits at every delimiter. The delimiter \<open>2.\<close> that follows the
  letter \<open>A\<close> is not at a word boundary: the text is not split there, and the delimiter
  stays in the answer.
\<close>

theorem split_answers_counterexample:
  "is_delimiter ''2.'' \<and>
   split_answers (''Please compare with step A'' @ ''2.'' @ '' of the worked example'') =
     [''Please compare with step A2. of the worked example'']"
proof -
  have "list_all is_digit ''2''"
    by (simp add: is_digit_def code_point_def)
  then have "is_delimiter (''2'' @ ''.'')"
    by (intro is_delimiter_digits) simp_all
  moreover have
    "split_answers (''Please compare with step A'' @ ''2.'' @ '' of the worked example'') =
     [''Please compare with step A2. of the worked example'']"
    by code_simp
  ultimately show ?thesis by simp
qed

text \<open>
  Claim C6, amended. The answers are the stripped parts of more than 20 characters: a part
  is dropped exactly when it has at most 20 characters after stripping. A part of exactly
  20 characters is dropped, and one of 21 characters is kept.
\<close>

theorem segments_up_to_20_are_dropped:
  "split_answers text =
     map strip (filter (\<lambda>part. 20 < length (strip part)) (re_split text)) \<and>
   (\<forall>part \<in> set (re_split text).
      strip part \<in> set (split_answers text) \<longleftrightarrow> 20 < length (strip part)) \<and>
   split_answers ''1. The answer is Paris. 2. The answer is Berlin.'' =
     [''The answer is Berlin.'']"
proof -
  have eq: "split_answers text =
      map strip (filter (\<lambda>part. 20 < length (strip part)) (re_split text))"
    by (simp add: split_answers_filter filter_map comp_def)
  have "\<forall>part \<in> set (re_split text).
      strip part \<in> set (split_answers text) \<longleftrightarrow> 20 < length (strip part)"
    by (auto simp: split_answers_filter)
  moreover have "split_answers ''1. The answer is Paris. 2. The answer is Berlin.'' =
     [''The answer is Berlin.'']"
    by code_simp
  ultimately show ?thesis using eq by blast
qed

text \<open>A text with a part of 20 characters and a part of 21 characters.\<close>

theorem segments_up_to_20_are_dropped_witness:
  "re_split ''1. The answer is Paris. 2. The answer is Berlin.'' =
     [[], '' The answer is Paris. '', '' The answer is Berlin.''] \<and>
   length (strip '' The answer is Paris. '') = 20 \<and>
   strip '' The answer is Paris. ''
     \<notin> set (split_answers ''1. The answer is Paris. 2. The answer is Berlin.'') \<and>
   length (strip '' The answer is Berlin.'') = 21 \<and>
   strip '' The answer is Berlin.''
     \<in> set (split_answers ''1. The answer is Paris. 2. The answer is Berlin.'')"
proof -
  let ?text = "''1. The answer is Paris. 2. The answer is Berlin.''"
  have parts: "re_split ?text = [[], '' The answer is Paris. '', '' The answer is Berlin.'']"
    by code_simp
  have l20: "length (strip '' The answer is Paris. '') = 20"
    by code_simp
  have l21: "length (strip '' The answer is Berlin.'') = 21"
    by code_simp
  from segments_up_to_20_are_dropped [of ?text]
  have each: "\<forall>part \<in> set (re_split ?text).
      strip part \<in> set (split_answers ?text) \<longleftrightarrow> 20 < length (strip part)"
    by blast
  have "'' The answer is Paris. '' \<in> set (re_split ?text)"
    by (simp only: parts) simp
  with each l20 have "strip '' The answer is Paris. '' \<notin> set (split_answers ?text)"
    by auto
  moreover have "'' The answer is Berlin.'' \<in> set (re_split ?text)"
    by (simp only: parts) simp
  with each l21 have "strip '' The answer is Berlin.'' \<in> set (split_answers ?text)"
    by auto
  ultimately show ?thesis using parts l20 l21 by blast
qed

text \<open>
  Claim C6 as stated keeps a part of exactly 20 characters. The only answer of this text
  has 20 characters after stripping, and it is dropped.
\<close>

theorem segment_of_length_20_counterexample:
  "re_split ''1. The answer is Paris.'' = [[], '' The answer is Paris.''] \<and>
   length (strip '' The answer is Paris.'') = 20 \<and>
   split_answers ''1. The answer is Paris.'' = []"
  by code_simp

end
